theory Spec2Isabelle
  imports Main "HOL-Library.Signed_Division"
begin

section \<open>Integers, errors and helpers (helper.go)\<close>

text \<open>
  Go's \<open>int\<close> is modelled by \<open>int\<close>. Go's \<open>%\<close> and \<open>/\<close> truncate towards zero: they are
  \<open>smod\<close> and \<open>sdiv\<close>. Where an operand comes straight from a caller-supplied \<open>Move\<close>
  field, and so is not bounded by the cube, the 64-bit wrap-around of the Go operation is
  written out with \<open>wrap64\<close>. Tile coordinates and layer bounds stay within the cube's
  dimension, where Go's arithmetic is exact.
\<close>

definition wrap64 :: "int \<Rightarrow> int" where
  "wrap64 i = (i + 2 ^ 63) mod 2 ^ 64 - 2 ^ 63"

datatype error =
    ErrFaceLengthsDiffer
  | ErrFaceNotPerfectSquare
  | ErrSliceParam
  | ErrUnexpectedGroupClosure
  | ErrUnclosedGroup
  | ErrTokenExtraction
  | ErrRotationMove
  | ErrSlicesMove
  | ErrMultipleSeparators
  | ErrSeparatorGroup
  | ErrSyntax



text \<open>
  \<open>reverse\<close>: copies the slice, then swaps index \<open>i\<close> with \<open>len - 1 - i\<close> for
  \<open>i = len/2 - 1\<close> down to \<open>0\<close>. The first argument of \<open>reverseLoop\<close> is \<open>i + 1\<close>.
\<close>

fun reverseLoop :: "nat \<Rightarrow> 'a list \<Rightarrow> 'a list" where
  "reverseLoop 0 reversed = reversed"
| "reverseLoop (Suc i) reversed =
     (let tmp = length reversed - 1 - i
      in reverseLoop i (reversed[i := reversed ! tmp, tmp := reversed ! i]))"

definition reverse :: "'a list \<Rightarrow> 'a list" where
  "reverse original = reverseLoop (length original div 2) original"

definition isDigit :: "char \<Rightarrow> bool" where
  "isDigit ch = ((of_char CHR ''0'' :: nat) \<le> of_char ch \<and> (of_char ch :: nat) \<le> of_char CHR ''9'')"

section \<open>Moves (notation.go)\<close>

record Move =
  Slices :: int
  Operator :: char
  Wide :: bool
  Rotations :: int
  Inverted :: bool

definition isAny :: "Move \<Rightarrow> char list \<Rightarrow> bool" where
  "isAny t runes = (Operator t \<in> set runes)"

definition validate :: "Move \<Rightarrow> error option" where
  "validate t =
     (if isAny t ''xyz'' \<and> (Slices t > 0 \<or> Wide t) then Some ErrRotationMove
      else if Slices t \<noteq> 0 \<and> \<not> Wide t then Some ErrSlicesMove
      else None)"

definition Normalize :: "Move \<Rightarrow> Move" where
  "Normalize t0 =
     (let t1 = (if Slices t0 = 0 \<and> Wide t0 then t0\<lparr>Slices := 2\<rparr> else t0);
          t2 = t1\<lparr>Rotations := Rotations t1 smod 4\<rparr>
      in if Rotations t2 = 0 then t2\<lparr>Rotations := 1\<rparr>
         else if Rotations t2 = 3 then t2\<lparr>Rotations := 1, Inverted := \<not> Inverted t2\<rparr>
         else if Rotations t2 < 0
           then t2\<lparr>Rotations := Rotations t2 * (- 1), Inverted := \<not> Inverted t2\<rparr>
         else t2)"

text \<open>
  \<open>CombineMove\<close> returns a pointer and a flag: \<open>(None, False)\<close> when the moves do not
  combine, \<open>(None, True)\<close> when they cancel, \<open>(Some out, True)\<close> otherwise.
\<close>

definition CombineMove :: "Move \<Rightarrow> Move \<Rightarrow> Move option \<times> bool" where
  "CombineMove t combo =
     (if Operator t \<noteq> Operator combo \<or> Slices t \<noteq> Slices combo \<or> Wide t \<noteq> Wide combo
      then (None, False)
      else
        let out = (if Inverted t = Inverted combo
                   then t\<lparr>Rotations := wrap64 (Rotations t + Rotations combo)\<rparr>
                   else t\<lparr>Rotations := wrap64 (Rotations t - Rotations combo)\<rparr>)
        in if Rotations out smod 4 = 0 then (None, True) else (Some out, True))"

section \<open>The cube engine\<close>

text \<open>
  A piece holds three tile pointers. \<open>newPiece\<close> allocates the three tiles of each piece
  afresh and no pointer is ever copied or reassigned, so no tile is reachable from two
  places and the tiles are embedded in their piece by value. The fields \<open>x\<close>, \<open>y\<close>, \<open>z\<close>
  of \<open>piece\<close> and \<open>max\<close> of \<open>Cube\<close> carry a prefix or suffix here.
\<close>

datatype axis = axisX | axisY | axisZ

record tile =
  coordinate :: int
  coordinateStart :: int
  color :: char

record piece =
  piece_x :: tile
  piece_y :: tile
  piece_z :: tile

record turn =
  axis :: axis
  layerMin :: int
  layerMax :: int
  rotations :: int
  clockwise :: bool

record Cube =
  max_c :: int
  pieces :: "piece list"


definition newTile :: "int \<Rightarrow> char \<Rightarrow> tile" where
  "newTile coord col = \<lparr>coordinate = coord, coordinateStart = coord, color = col\<rparr>"

definition colorize :: "int \<Rightarrow> int \<Rightarrow> char \<Rightarrow> char \<Rightarrow> char" where
  "colorize mx coord c0 cMax =
     (if coord = 0 then c0 else if coord = mx then cMax else CHR 0x00)"

definition newPiece :: "int \<Rightarrow> int \<Rightarrow> int \<Rightarrow> int \<Rightarrow> piece" where
  "newPiece mx x y z =
     \<lparr>piece_x = newTile x (colorize mx x CHR ''o'' CHR ''r''),
      piece_y = newTile y (colorize mx y CHR ''y'' CHR ''w''),
      piece_z = newTile z (colorize mx z CHR ''b'' CHR ''g'')\<rparr>"

fun isInner :: "int \<Rightarrow> int list \<Rightarrow> bool" where
  "isInner mx [] = True"
| "isInner mx (p # pos) = (if p = 0 \<or> p = mx then False else isInner mx pos)"

text \<open>
  \<open>NewCube\<close>: \<open>n = pow(size, 3) - pow(size - 2, 3)\<close> is only the capacity of the slice
  that is allocated; the pieces are the ones the three nested loops append. \<open>for x := range size\<close> runs over
  \<open>0, ..., size - 1\<close> and not at all when \<open>size \<le> 0\<close>.
\<close>

definition NewCube :: "int \<Rightarrow> Cube" where
  "NewCube sz =
     (let mx = sz - 1
      in \<lparr>max_c = mx,
          pieces =
            concat (map (\<lambda>x.
              concat (map (\<lambda>y.
                concat (map (\<lambda>z.
                  if isInner mx [x, y, z] then [] else [newPiece mx x y z])
                [0 .. sz - 1]))
              [0 .. sz - 1]))
            [0 .. sz - 1])\<rparr>)"

text \<open>
  \<open>turnAxis\<close>: \<open>for range rotations\<close> runs \<open>rotations\<close> times and not at all for a
  negative count; the caller passes \<open>nat rotations\<close>. The pair is \<open>(t1, t2)\<close>.
\<close>

fun turnAxis :: "int \<Rightarrow> tile \<times> tile \<Rightarrow> bool \<Rightarrow> nat \<Rightarrow> tile \<times> tile" where
  "turnAxis mx (t1, t2) direction 0 = (t1, t2)"
| "turnAxis mx (t1, t2) direction (Suc n) =
     (let (c1, c2) = (if direction
                      then (mx - coordinate t2, coordinate t1)
                      else (coordinate t2, mx - coordinate t1))
      in turnAxis mx
           (t1\<lparr>coordinate := c1, color := color t2\<rparr>,
            t2\<lparr>coordinate := c2, color := color t1\<rparr>)
           direction n)"

definition inRange :: "turn \<Rightarrow> int \<Rightarrow> bool" where
  "inRange t n = (layerMin t \<le> n \<and> n \<le> layerMax t)"

definition turnPiece :: "int \<Rightarrow> turn \<Rightarrow> piece \<Rightarrow> piece" where
  "turnPiece mx t p =
     (case axis t of
        axisX \<Rightarrow>
          if inRange t (coordinate (piece_x p))
          then (let (a, b) = turnAxis mx (piece_y p, piece_z p) (clockwise t) (nat (rotations t))
                in p\<lparr>piece_y := a, piece_z := b\<rparr>)
          else p
      | axisY \<Rightarrow>
          if inRange t (coordinate (piece_y p))
          then (let (a, b) = turnAxis mx (piece_x p, piece_z p) (clockwise t) (nat (rotations t))
                in p\<lparr>piece_x := a, piece_z := b\<rparr>)
          else p
      | axisZ \<Rightarrow>
          if inRange t (coordinate (piece_z p))
          then (let (a, b) = turnAxis mx (piece_x p, piece_y p) (clockwise t) (nat (rotations t))
                in p\<lparr>piece_x := a, piece_y := b\<rparr>)
          else p)"

definition turn :: "Cube \<Rightarrow> turn \<Rightarrow> Cube" where
  "turn c t = c\<lparr>pieces := map (turnPiece (max_c c) t) (pieces c)\<rparr>"

text \<open>
  \<open>ExecuteMove\<close> mutates the cube in place and returns an error; here it returns the
  cube after the call together with the error (\<open>None\<close> for \<open>nil\<close>).
\<close>

definition wideLayerMin :: "Cube \<Rightarrow> Move \<Rightarrow> int" where
  "wideLayerMin c move =
     (if Wide move then wrap64 (max_c c - wrap64 (Slices move - 1)) else max_c c)"

definition moveClockwise :: "Move \<Rightarrow> bool" where
  "moveClockwise move =
     (let cw = \<not> Inverted move
      in if isAny move ''RFDESxz'' then \<not> cw else cw)"

definition moveAxis :: "Move \<Rightarrow> axis" where
  "moveAxis move =
     (if isAny move ''FBSz'' then axisZ
      else if isAny move ''UDEy'' then axisY
      else axisX)"

definition ExecuteMove :: "Cube \<Rightarrow> Move \<Rightarrow> Cube \<times> error option" where
  "ExecuteMove c move =
     (let lMin0 = wideLayerMin c move;
          lMax0 = max_c c
      in if lMin0 < 0 then (c, Some ErrSliceParam)
         else
           let (lMin1, lMax1) =
                 (if isAny move ''LBDE'' then (max_c c - lMax0, max_c c - lMin0)
                  else if isAny move ''xyz'' then (0, max_c c)
                  else (lMin0, lMax0))
           in if isAny move ''MES''
              then (if max_c c smod 2 = 1 then (c, None)
                    else (turn c \<lparr>axis = moveAxis move,
                                  layerMin = max_c c sdiv 2,
                                  layerMax = max_c c sdiv 2,
                                  rotations = Rotations move,
                                  clockwise = moveClockwise move\<rparr>, None))
              else (turn c \<lparr>axis = moveAxis move,
                            layerMin = lMin1,
                            layerMax = lMax1,
                            rotations = Rotations move,
                            clockwise = moveClockwise move\<rparr>, None))"

text \<open>\<open>ExecuteMoves\<close> calls \<open>ExecuteMove\<close> for each move and drops what it returns.\<close>

fun ExecuteMoves :: "Cube \<Rightarrow> Move list \<Rightarrow> Cube" where
  "ExecuteMoves c [] = c"
| "ExecuteMoves c (m # moves) = ExecuteMoves (fst (ExecuteMove c m)) moves"

section \<open>The notation parser (notation.go)\<close>

datatype GroupType = groupTypeNil | GroupTypeMove | GroupTypeComm

text \<open>
  The parser only ever stores the addresses of the two package variables \<open>SepCommutator\<close>
  and \<open>SepConjugate\<close>, and \<open>Expand\<close> compares a separator with these addresses.
\<close>

datatype Separator = SepCommutator | SepConjugate

datatype Tokenizable = TokMove Move | TokSeparator Separator | TokGroup Group
  and Group = MkGroup (Tokens: "Tokenizable list") (Factor: int) (GroupType: GroupType)

definition OpenGroupTypes :: "char \<rightharpoonup> GroupType" where
  "OpenGroupTypes = [CHR ''('' \<mapsto> GroupTypeMove, CHR ''['' \<mapsto> GroupTypeComm]"

definition CloseGroupTypes :: "char \<rightharpoonup> GroupType" where
  "CloseGroupTypes = [CHR '')'' \<mapsto> GroupTypeMove, CHR '']'' \<mapsto> GroupTypeComm]"

definition Separators :: "char \<rightharpoonup> Separator" where
  "Separators = [CHR '':'' \<mapsto> SepConjugate, CHR '','' \<mapsto> SepCommutator]"

definition NewGroup :: "GroupType \<Rightarrow> Group" where
  "NewGroup groupType = MkGroup [] 1 groupType"

definition AddToken :: "Group \<Rightarrow> Tokenizable \<Rightarrow> Group" where
  "AddToken g t = MkGroup (Tokens g @ [t]) (Factor g) (GroupType g)"

definition ReverseMoves :: "Move list \<Rightarrow> Move list" where
  "ReverseMoves moves = map (\<lambda>m. m\<lparr>Inverted := \<not> Inverted m\<rparr>) (reverse moves)"

text \<open>One iteration of the loop of \<open>NormalizeMoves\<close>, on the slice \<open>normalized\<close>.\<close>

definition normalizeStep :: "Move \<Rightarrow> Move list \<Rightarrow> Move list" where
  "normalizeStep t normalized =
     (if length normalized = 0 then normalized @ [t]
      else
        let lastMove = last normalized
        in case CombineMove lastMove t of
             (_, False) \<Rightarrow> normalized @ [t]
           | (None, True) \<Rightarrow> butlast normalized
           | (Some combined, True) \<Rightarrow> butlast normalized @ [Normalize combined])"

definition NormalizeMoves :: "Move list \<Rightarrow> error + Move list" where
  "NormalizeMoves moves = Inr (fold normalizeStep moves [])"

text \<open>
  \<open>Expand\<close>: \<open>expandTokens\<close> is its loop over \<open>g.Tokens\<close>, on the state
  \<open>(head, tail, separator)\<close>.
\<close>

fun Expand :: "Group \<Rightarrow> error + Move list"
  and expandTokens ::
    "Tokenizable list \<Rightarrow> Move list \<times> Move list \<times> Separator option
       \<Rightarrow> error + (Move list \<times> Move list \<times> Separator option)"
where
  "Expand (MkGroup tokens factor groupType) =
     (case expandTokens tokens ([], [], None) of
        Inl err \<Rightarrow> Inl err
      | Inr (head, tail, separator) \<Rightarrow>
          if separator \<noteq> None \<and> groupType \<noteq> GroupTypeComm then Inl ErrSeparatorGroup
          else
            let res0 = head @ tail;
                res1 = (if separator = Some SepConjugate
                        then res0 @ ReverseMoves head else res0);
                res2 = (if separator = Some SepCommutator
                        then (res1 @ ReverseMoves head) @ ReverseMoves tail else res1);
                out = (if factor > 1 then concat (replicate (nat factor) res2) else res2)
            in NormalizeMoves out)"
| "expandTokens [] st = Inr st"
| "expandTokens (TokMove v # tokens) (head, tail, separator) =
     (if separator = None then expandTokens tokens (head @ [v], tail, separator)
      else expandTokens tokens (head, tail @ [v], separator))"
| "expandTokens (TokSeparator v # tokens) (head, tail, separator) =
     (if separator \<noteq> None then Inl ErrMultipleSeparators
      else expandTokens tokens (head, tail, Some v))"
| "expandTokens (TokGroup v # tokens) (head, tail, separator) =
     (case Expand v of
        Inl err \<Rightarrow> Inl err
      | Inr toks \<Rightarrow>
          if separator = None then expandTokens tokens (head @ toks, tail, separator)
          else expandTokens tokens (head, tail @ toks, separator))"

text \<open>
  The regular expression \<open>reToken\<close> is anchored at the start of the input and is a
  sequence of one-character items, each optional but the face letter. \<open>optClass\<close> is an
  optional item \<open>C?\<close>: it takes the next character when that is in the class. The
  engine can only backtrack into giving up an optional character, and what follows an
  optional item never accepts a character of that item's class where it is mandatory, so
  the greedy choice is the match found. \<open>\d\<close> is the ASCII digits.
\<close>

definition isFace :: "char \<Rightarrow> bool" where
  "isFace ch = (ch \<in> set ''ULFRBDMESxyz'')"

definition isEnd :: "char \<Rightarrow> bool" where
  "isEnd ch = (ch \<in> set [CHR '' '', CHR '']'', CHR '')'', CHR '','', CHR '':''])"

fun optClass :: "(char \<Rightarrow> bool) \<Rightarrow> string \<Rightarrow> string \<times> string" where
  "optClass P [] = ([], [])"
| "optClass P (ch # rest) = (if P ch then ([ch], rest) else ([], ch # rest))"

text \<open>
  The submatches: \<open>m_all\<close> is \<open>matches[0]\<close>; the face group always holds exactly one
  character, which is what \<open>m_face\<close> is.
\<close>

record tokenMatch =
  m_all :: string
  m_slices :: string
  m_face :: char
  m_wide :: string
  m_rotations :: string
  m_prime :: string
  m_end :: string

definition reToken :: "string \<Rightarrow> tokenMatch option" where
  "reToken input =
     (let (slices, r1) = optClass isDigit input
      in case r1 of
           [] \<Rightarrow> None
         | face # r2 \<Rightarrow>
             if \<not> isFace face then None
             else
               let (wide, r3) = optClass (\<lambda>ch. ch = CHR ''w'') r2;
                   (rots, r4) = optClass isDigit r3;
                   (prime, r5) = optClass (\<lambda>ch. ch = CHR 0x27) r4;
                   (end, r6) = optClass isEnd r5
               in Some \<lparr>m_all = slices @ [face] @ wide @ rots @ prime @ end,
                         m_slices = slices, m_face = face, m_wide = wide,
                         m_rotations = rots, m_prime = prime, m_end = end\<rparr>)"

text \<open>
  \<open>strconv.Atoi\<close> on the strings \<open>strToInt\<close> passes to it: a string of decimal digits
  gives its value, anything else the syntax error.
\<close>

definition digitVal :: "char \<Rightarrow> int" where
  "digitVal ch = int (of_char ch) - int (of_char CHR ''0'')"

definition Atoi :: "string \<Rightarrow> error + int" where
  "Atoi s =
     (if s \<noteq> [] \<and> list_all isDigit s
      then Inr (fold (\<lambda>ch acc. acc * 10 + digitVal ch) s 0)
      else Inl ErrSyntax)"

definition strToInt :: "string \<Rightarrow> error + int" where
  "strToInt s = (if s = [] then Inr 0 else Atoi s)"

text \<open>
  \<open>extractToken\<close> returns the move, the length of the token without its end character,
  and an error; \<open>ParseNotation\<close> looks at the first two only when the error is \<open>nil\<close>.
\<close>

definition extractToken :: "string \<Rightarrow> error + (Move \<times> nat)" where
  "extractToken input =
     (case reToken input of
        None \<Rightarrow> Inl ErrTokenExtraction
      | Some matches \<Rightarrow>
          (case strToInt (m_slices matches) of
             Inl err \<Rightarrow> Inl err
           | Inr slices \<Rightarrow>
               (case strToInt (m_rotations matches) of
                  Inl err \<Rightarrow> Inl err
                | Inr rots \<Rightarrow>
                    let t = Normalize
                              \<lparr>Slices = slices, Operator = m_face matches,
                               Wide = (m_wide matches = ''w''), Rotations = rots,
                               Inverted = (m_prime matches = [CHR 0x27])\<rparr>;
                        len = length (m_all matches) - length (m_end matches)
                    in case validate t of
                         Some err \<Rightarrow> Inl err
                       | None \<Rightarrow> Inr (t, len))))"

text \<open>
  \<open>ParseNotation\<close>: \<open>parseLoop\<close> is the loop over the input, on the text from index
  \<open>i\<close> on; the stack is a list with its top first. After a closing delimiter one digit,
  when there is one, is consumed as the factor of the group.
\<close>

function parseLoop :: "Group list \<Rightarrow> Group \<Rightarrow> string \<Rightarrow> error + Group" where
  "parseLoop stack currentGroup [] =
     (if length stack > 0 then Inl ErrUnclosedGroup else Inr currentGroup)"
| "parseLoop stack currentGroup (ch # rest) =
     (if ch = CHR '' '' then parseLoop stack currentGroup rest
      else case OpenGroupTypes ch of
        Some v \<Rightarrow> parseLoop (currentGroup # stack) (NewGroup v) rest
      | None \<Rightarrow>
         (case CloseGroupTypes ch of
            Some _ \<Rightarrow>
              (case stack of
                 [] \<Rightarrow> Inl ErrUnexpectedGroupClosure
               | popped # stack' \<Rightarrow>
                   (case rest of
                      [] \<Rightarrow> parseLoop stack' (AddToken popped (TokGroup currentGroup)) []
                    | d # rest' \<Rightarrow>
                        if isDigit d
                        then parseLoop stack'
                               (AddToken popped (TokGroup
                                  (MkGroup (Tokens currentGroup) (digitVal d)
                                     (GroupType currentGroup))))
                               rest'
                        else parseLoop stack' (AddToken popped (TokGroup currentGroup)) rest))
          | None \<Rightarrow>
              (case Separators ch of
                 Some v \<Rightarrow> parseLoop stack (AddToken currentGroup (TokSeparator v)) rest
               | None \<Rightarrow>
                   (case extractToken (ch # rest) of
                      Inl err \<Rightarrow> Inl err
                    | Inr (token, end) \<Rightarrow>
                        parseLoop stack (AddToken currentGroup (TokMove token))
                          (drop end (ch # rest))))))"
  by pat_completeness auto

definition ParseNotation :: "string \<Rightarrow> error + Group" where
  "ParseNotation input = parseLoop [] (NewGroup groupTypeNil) input"

text \<open>\<open>ParseNotation\<close> followed by \<open>Expand\<close>, as the callers chain them.\<close>

definition parseExpand :: "string \<Rightarrow> error + Move list" where
  "parseExpand input =
     (case ParseNotation input of Inl err \<Rightarrow> Inl err | Inr g \<Rightarrow> Expand g)"

section \<open>Notions the properties are stated with\<close>

text \<open>The tiles of a piece, and the lattice point a piece is at.\<close>

definition tiles :: "piece \<Rightarrow> tile list" where
  "tiles p = [piece_x p, piece_y p, piece_z p]"


text \<open>
  The invariant of an \<open>N\<close>-cube: \<open>max\<close> is \<open>N - 1\<close>, every piece has three tiles and
  every tile coordinate is within \<open>[0, N - 1]\<close>.
\<close>

definition cubeInv :: "int \<Rightarrow> Cube \<Rightarrow> bool" where
  "cubeInv N c =
     (max_c c = N - 1 \<and>
      (\<forall>p \<in> set (pieces c).
         length (tiles p) = 3 \<and>
         (\<forall>t \<in> set (tiles p). 0 \<le> coordinate t \<and> coordinate t \<le> N - 1)))"


text \<open>
  The cubes a program can hold: the one \<open>NewCube N\<close> returns, and what \<open>ExecuteMove\<close>
  and \<open>ExecuteMoves\<close> leave behind when called on such a cube.
\<close>

inductive reachable :: "int \<Rightarrow> Cube \<Rightarrow> bool" for N :: int where
  reach_new: "reachable N (NewCube N)"
| reach_move: "reachable N c \<Longrightarrow> reachable N (fst (ExecuteMove c m))"
| reach_moves: "reachable N c \<Longrightarrow> reachable N (ExecuteMoves c ms)"


text \<open>
  The token grammar in the words of the specification: an optional digit, a face letter,
  an optional \<open>w\<close>, an optional digit, an optional \<open>'\<close>, and then a boundary character
  or the end of the input.
\<close>

definition specToken :: "string \<Rightarrow> bool" where
  "specToken input =
     (let (slices, r1) = optClass isDigit input
      in case r1 of
           [] \<Rightarrow> False
         | face # r2 \<Rightarrow>
             isFace face \<and>
             (let (wide, r3) = optClass (\<lambda>ch. ch = CHR ''w'') r2;
                  (rots, r4) = optClass isDigit r3;
                  (prime, r5) = optClass (\<lambda>ch. ch = CHR 0x27) r4
              in case r5 of [] \<Rightarrow> True | e # r6 \<Rightarrow> isEnd e))"

text \<open>
  What the regular expression asks of the text for a match: a face letter, or a digit and
  then a face letter, at its start.
\<close>

definition tokenStart :: "string \<Rightarrow> bool" where
  "tokenStart input =
     (case input of
        [] \<Rightarrow> False
      | a # r \<Rightarrow> isFace a \<or> (isDigit a \<and> (case r of [] \<Rightarrow> False | b # r' \<Rightarrow> isFace b)))"

text \<open>The characters \<open>ParseNotation\<close> handles itself, before it tries a token.\<close>

definition isStructural :: "char \<Rightarrow> bool" where
  "isStructural ch =
     (ch = CHR '' '' \<or> OpenGroupTypes ch \<noteq> None \<or> CloseGroupTypes ch \<noteq> None \<or>
      Separators ch \<noteq> None)"

section \<open>Termination of the parser\<close>

lemma extractToken_length: "extractToken s = Inr (t, n) \<Longrightarrow> 1 \<le> n"
  by (auto simp: extractToken_def reToken_def Let_def
      split: option.splits sum.splits prod.splits list.splits if_splits)

termination parseLoop
  by (relation "measure (\<lambda>(st, g, s). length s)") (auto dest: extractToken_length)

section \<open>Move normalization\<close>

text \<open>
  C5. Normalizing a move twice gives the same move as normalizing it once. \<open>Normalize\<close>
  does not do so for a move with \<open>Rotations = -3\<close>: the remainder \<open>-3\<close> is negated to
  \<open>3\<close>, which a second call turns into \<open>1\<close>.
\<close>

theorem Normalize_twice_minus3:
  "Normalize \<lparr>Slices = 0, Operator = CHR ''R'', Wide = False, Rotations = - 3, Inverted = False\<rparr>
     = \<lparr>Slices = 0, Operator = CHR ''R'', Wide = False, Rotations = 3, Inverted = True\<rparr>
   \<and> Normalize (Normalize
        \<lparr>Slices = 0, Operator = CHR ''R'', Wide = False, Rotations = - 3, Inverted = False\<rparr>)
     = \<lparr>Slices = 0, Operator = CHR ''R'', Wide = False, Rotations = 1, Inverted = False\<rparr>"
  by (simp add: Normalize_def signed_modulo_int_def)

section \<open>Executing moves\<close>

lemma ExecuteMoves_append:
  "ExecuteMoves c (pre @ post) = ExecuteMoves (ExecuteMoves c pre) post"
  by (induction pre arbitrary: c) simp_all

lemma ExecuteMove_error_unchanged:
  "snd (ExecuteMove c m) \<noteq> None \<Longrightarrow> fst (ExecuteMove c m) = c"
  by (simp add: ExecuteMove_def Let_def split: prod.splits if_splits)

text \<open>
  C10. Whenever \<open>ExecuteMove\<close> returns the \<open>SliceParam\<close> error, the cube is as it was
  before the call.
\<close>

theorem ExecuteMove_SliceParam_atomic:
  "snd (ExecuteMove c m) = Some ErrSliceParam \<Longrightarrow> fst (ExecuteMove c m) = c"
  by (simp add: ExecuteMove_def Let_def split: prod.splits if_splits)

theorem ExecuteMove_SliceParam_atomic_witness:
  "snd (ExecuteMove (NewCube 3)
          \<lparr>Slices = 5, Operator = CHR ''R'', Wide = True, Rotations = 1, Inverted = False\<rparr>)
     = Some ErrSliceParam
   \<and> fst (ExecuteMove (NewCube 3)
          \<lparr>Slices = 5, Operator = CHR ''R'', Wide = True, Rotations = 1, Inverted = False\<rparr>)
     = NewCube 3"
proof -
  have h: "snd (ExecuteMove (NewCube 3)
          \<lparr>Slices = 5, Operator = CHR ''R'', Wide = True, Rotations = 1, Inverted = False\<rparr>)
     = Some ErrSliceParam"
    by (simp add: ExecuteMove_def wideLayerMin_def NewCube_def wrap64_def)
  from ExecuteMove_SliceParam_atomic [OF h] h show ?thesis by simp
qed

text \<open>
  C9. \<open>ExecuteMoves\<close> runs \<open>ExecuteMove\<close> on every move in order, each on the cube the
  one before left, and returns the cube; an error of one move is dropped, and the moves
  after it are executed on the cube as the failing move left it, which is unchanged.
\<close>

theorem ExecuteMoves_swallows_errors:
  "ExecuteMoves c moves = fold (\<lambda>m c'. fst (ExecuteMove c' m)) moves c
   \<and> ExecuteMoves c (pre @ m # post)
       = ExecuteMoves (fst (ExecuteMove (ExecuteMoves c pre) m)) post
   \<and> (snd (ExecuteMove (ExecuteMoves c pre) m) \<noteq> None \<longrightarrow>
        ExecuteMoves c (pre @ m # post) = ExecuteMoves (ExecuteMoves c pre) post)"
proof (intro conjI impI)
  show "ExecuteMoves c moves = fold (\<lambda>m c'. fst (ExecuteMove c' m)) moves c"
    by (induction moves arbitrary: c) simp_all
  show step: "ExecuteMoves c (pre @ m # post)
       = ExecuteMoves (fst (ExecuteMove (ExecuteMoves c pre) m)) post"
    by (simp add: ExecuteMoves_append)
  assume "snd (ExecuteMove (ExecuteMoves c pre) m) \<noteq> None"
  then have "fst (ExecuteMove (ExecuteMoves c pre) m) = ExecuteMoves c pre"
    by (rule ExecuteMove_error_unchanged)
  with step show "ExecuteMoves c (pre @ m # post) = ExecuteMoves (ExecuteMoves c pre) post"
    by simp
qed

theorem ExecuteMoves_swallows_errors_witness:
  "snd (ExecuteMove (ExecuteMoves (NewCube 2) [])
          \<lparr>Slices = 5, Operator = CHR ''R'', Wide = True, Rotations = 1, Inverted = False\<rparr>) \<noteq> None
   \<and> ExecuteMoves (NewCube 2)
        ([] @ \<lparr>Slices = 5, Operator = CHR ''R'', Wide = True, Rotations = 1, Inverted = False\<rparr>
           # [\<lparr>Slices = 0, Operator = CHR ''R'', Wide = False, Rotations = 1, Inverted = False\<rparr>])
     = ExecuteMoves (ExecuteMoves (NewCube 2) [])
         [\<lparr>Slices = 0, Operator = CHR ''R'', Wide = False, Rotations = 1, Inverted = False\<rparr>]"
proof -
  have h: "snd (ExecuteMove (ExecuteMoves (NewCube 2) [])
          \<lparr>Slices = 5, Operator = CHR ''R'', Wide = True, Rotations = 1, Inverted = False\<rparr>) \<noteq> None"
    by (simp add: ExecuteMove_def wideLayerMin_def NewCube_def wrap64_def)
  from ExecuteMoves_swallows_errors [of "NewCube 2" "[]" "[]"
      "\<lparr>Slices = 5, Operator = CHR ''R'', Wide = True, Rotations = 1, Inverted = False\<rparr>"
      "[\<lparr>Slices = 0, Operator = CHR ''R'', Wide = False, Rotations = 1, Inverted = False\<rparr>]"] h
  show ?thesis by blast
qed

section \<open>Four quarter-turns\<close>

lemma turnAxis_once_four:
  "turnAxis mx (turnAxis mx (turnAxis mx (turnAxis mx (a, b) d (Suc 0)) d (Suc 0)) d (Suc 0)) d (Suc 0)
     = (a, b)"
  by (cases d) (simp_all add: Let_def)

lemma turnPiece_once_four:
  assumes "nat (rotations t) = Suc 0"
  shows "turnPiece mx t (turnPiece mx t (turnPiece mx t (turnPiece mx t p))) = p"
proof (cases "axis t")
  case axisX
  then show ?thesis using assms
    by (cases "clockwise t") (simp_all add: turnPiece_def Let_def split: prod.splits)
next
  case axisY
  then show ?thesis using assms
    by (cases "clockwise t") (simp_all add: turnPiece_def Let_def split: prod.splits)
next
  case axisZ
  then show ?thesis using assms
    by (cases "clockwise t") (simp_all add: turnPiece_def Let_def split: prod.splits)
qed

lemma turn_once_four:
  assumes "nat (rotations t) = Suc 0"
  shows "turn (turn (turn (turn c t) t) t) t = c"
  using assms by (simp add: turn_def o_def turnPiece_once_four)

lemma ExecuteMove_R:
  "ExecuteMove c \<lparr>Slices = 0, Operator = CHR ''R'', Wide = False, Rotations = 1, Inverted = False\<rparr>
     = (if max_c c < 0 then (c, Some ErrSliceParam)
        else (turn c \<lparr>axis = axisX, layerMin = max_c c, layerMax = max_c c,
                      rotations = 1, clockwise = False\<rparr>, None))"
  by (simp add: ExecuteMove_def wideLayerMin_def isAny_def moveAxis_def moveClockwise_def Let_def)

lemma max_c_turn: "max_c (turn c t) = max_c c"
  by (simp add: turn_def)

text \<open>
  C2. The text \<open>R R R R\<close> parses to four times the move \<open>R\<close>, a quarter-turn of the
  \<open>R\<close> face, and executing these four moves on a cube, whatever its size and state,
  leaves every tile with the coordinate and the color it had.
\<close>

theorem four_R_turns_restore:
  "ParseNotation ''R R R R''
     = Inr (MkGroup
         [TokMove \<lparr>Slices = 0, Operator = CHR ''R'', Wide = False, Rotations = 1, Inverted = False\<rparr>,
          TokMove \<lparr>Slices = 0, Operator = CHR ''R'', Wide = False, Rotations = 1, Inverted = False\<rparr>,
          TokMove \<lparr>Slices = 0, Operator = CHR ''R'', Wide = False, Rotations = 1, Inverted = False\<rparr>,
          TokMove \<lparr>Slices = 0, Operator = CHR ''R'', Wide = False, Rotations = 1, Inverted = False\<rparr>]
         1 groupTypeNil)
   \<and> ExecuteMoves c
       [\<lparr>Slices = 0, Operator = CHR ''R'', Wide = False, Rotations = 1, Inverted = False\<rparr>,
        \<lparr>Slices = 0, Operator = CHR ''R'', Wide = False, Rotations = 1, Inverted = False\<rparr>,
        \<lparr>Slices = 0, Operator = CHR ''R'', Wide = False, Rotations = 1, Inverted = False\<rparr>,
        \<lparr>Slices = 0, Operator = CHR ''R'', Wide = False, Rotations = 1, Inverted = False\<rparr>] = c"
proof (intro conjI)
  show "ExecuteMoves c
       [\<lparr>Slices = 0, Operator = CHR ''R'', Wide = False, Rotations = 1, Inverted = False\<rparr>,
        \<lparr>Slices = 0, Operator = CHR ''R'', Wide = False, Rotations = 1, Inverted = False\<rparr>,
        \<lparr>Slices = 0, Operator = CHR ''R'', Wide = False, Rotations = 1, Inverted = False\<rparr>,
        \<lparr>Slices = 0, Operator = CHR ''R'', Wide = False, Rotations = 1, Inverted = False\<rparr>] = c"
    by (simp add: ExecuteMove_R max_c_turn turn_once_four)
  show "ParseNotation ''R R R R''
     = Inr (MkGroup
         [TokMove \<lparr>Slices = 0, Operator = CHR ''R'', Wide = False, Rotations = 1, Inverted = False\<rparr>,
          TokMove \<lparr>Slices = 0, Operator = CHR ''R'', Wide = False, Rotations = 1, Inverted = False\<rparr>,
          TokMove \<lparr>Slices = 0, Operator = CHR ''R'', Wide = False, Rotations = 1, Inverted = False\<rparr>,
          TokMove \<lparr>Slices = 0, Operator = CHR ''R'', Wide = False, Rotations = 1, Inverted = False\<rparr>]
         1 groupTypeNil)"
    by (simp add: ParseNotation_def OpenGroupTypes_def CloseGroupTypes_def Separators_def
        extractToken_def reToken_def isDigit_def isFace_def isEnd_def strToInt_def Normalize_def
        validate_def isAny_def NewGroup_def AddToken_def Let_def signed_modulo_int_def)
qed


section \<open>The invariant of the cube\<close>

lemma turnAxis_bounds:
  assumes "0 \<le> coordinate t1" "coordinate t1 \<le> mx" "0 \<le> coordinate t2" "coordinate t2 \<le> mx"
  shows "0 \<le> coordinate (fst (turnAxis mx (t1, t2) d n)) \<and> coordinate (fst (turnAxis mx (t1, t2) d n)) \<le> mx
       \<and> 0 \<le> coordinate (snd (turnAxis mx (t1, t2) d n)) \<and> coordinate (snd (turnAxis mx (t1, t2) d n)) \<le> mx"
  using assms
proof (induction n arbitrary: t1 t2)
  case 0
  then show ?case by simp
next
  case (Suc n)
  define t1' where "t1' = t1\<lparr>coordinate := (if d then mx - coordinate t2 else coordinate t2),
                              color := color t2\<rparr>"
  define t2' where "t2' = t2\<lparr>coordinate := (if d then coordinate t1 else mx - coordinate t1),
                              color := color t1\<rparr>"
  have step: "turnAxis mx (t1, t2) d (Suc n) = turnAxis mx (t1', t2') d n"
    by (simp add: t1'_def t2'_def)
  have "0 \<le> coordinate t1'" "coordinate t1' \<le> mx" "0 \<le> coordinate t2'" "coordinate t2' \<le> mx"
    using Suc.prems by (simp_all add: t1'_def t2'_def)
  then show ?case
    unfolding step by (rule Suc.IH)
qed

lemma turnPiece_bounds:
  assumes "\<forall>t \<in> set (tiles p). 0 \<le> coordinate t \<and> coordinate t \<le> mx"
  shows "\<forall>t \<in> set (tiles (turnPiece mx tn p)). 0 \<le> coordinate t \<and> coordinate t \<le> mx"
proof -
  have x: "0 \<le> coordinate (piece_x p)" "coordinate (piece_x p) \<le> mx"
    and y: "0 \<le> coordinate (piece_y p)" "coordinate (piece_y p) \<le> mx"
    and z: "0 \<le> coordinate (piece_z p)" "coordinate (piece_z p) \<le> mx"
    using assms by (simp_all add: tiles_def)
  note yz = turnAxis_bounds [OF y z, of "clockwise tn" "nat (rotations tn)"]
  note xz = turnAxis_bounds [OF x z, of "clockwise tn" "nat (rotations tn)"]
  note xy = turnAxis_bounds [OF x y, of "clockwise tn" "nat (rotations tn)"]
  show ?thesis
  proof (cases "axis tn")
    case axisX
    with x y z yz show ?thesis
      by (auto simp: turnPiece_def tiles_def split: prod.splits)
  next
    case axisY
    with x y z xz show ?thesis
      by (auto simp: turnPiece_def tiles_def split: prod.splits)
  next
    case axisZ
    with x y z xy show ?thesis
      by (auto simp: turnPiece_def tiles_def split: prod.splits)
  qed
qed

lemma cubeInv_turn:
  assumes "cubeInv N c"
  shows "cubeInv N (turn c tn)"
proof -
  have mx: "max_c c = N - 1"
    using assms by (simp add: cubeInv_def)
  have "\<forall>t \<in> set (tiles (turnPiece (N - 1) tn p)). 0 \<le> coordinate t \<and> coordinate t \<le> N - 1"
    if "p \<in> set (pieces c)" for p
  proof (rule turnPiece_bounds)
    show "\<forall>t\<in>set (tiles p). 0 \<le> coordinate t \<and> coordinate t \<le> N - 1"
      using assms that by (simp add: cubeInv_def)
  qed
  then show ?thesis
    by (simp add: cubeInv_def turn_def mx tiles_def)
qed

lemma ExecuteMove_cases:
  "fst (ExecuteMove c m) = c \<or> (\<exists>tn. fst (ExecuteMove c m) = turn c tn)"
  by (auto simp: ExecuteMove_def Let_def split: prod.splits)

lemma cubeInv_ExecuteMove: "cubeInv N c \<Longrightarrow> cubeInv N (fst (ExecuteMove c m))"
  using ExecuteMove_cases [of c m] by (auto simp: cubeInv_turn)

lemma cubeInv_ExecuteMoves: "cubeInv N c \<Longrightarrow> cubeInv N (ExecuteMoves c ms)"
  by (induction ms arbitrary: c) (simp_all add: cubeInv_ExecuteMove)

lemma NewCube_pieces:
  assumes "p \<in> set (pieces (NewCube N))"
  shows "\<exists>x y z. p = newPiece (N - 1) x y z \<and> \<not> isInner (N - 1) [x, y, z]
           \<and> 0 \<le> x \<and> x \<le> N - 1 \<and> 0 \<le> y \<and> y \<le> N - 1 \<and> 0 \<le> z \<and> z \<le> N - 1"
proof -
  from assms obtain x y z where
    "x \<in> set [0 .. N - 1]" "y \<in> set [0 .. N - 1]" "z \<in> set [0 .. N - 1]"
    "p \<in> set (if isInner (N - 1) [x, y, z] then [] else [newPiece (N - 1) x y z])"
    unfolding NewCube_def Let_def by fastforce
  then show ?thesis
    by (cases "isInner (N - 1) [x, y, z]") (auto simp del: isInner.simps)
qed

lemma cubeInv_NewCube: "cubeInv N (NewCube N)"
proof -
  have "\<forall>t \<in> set (tiles p). 0 \<le> coordinate t \<and> coordinate t \<le> N - 1"
    if "p \<in> set (pieces (NewCube N))" for p
    using NewCube_pieces [OF that] by (auto simp: tiles_def newPiece_def newTile_def)
  moreover have "max_c (NewCube N) = N - 1"
    by (simp add: NewCube_def Let_def)
  ultimately show ?thesis
    by (simp add: cubeInv_def tiles_def)
qed

text \<open>
  C1. Every cube that \<open>NewCube N\<close>, with \<open>N \<ge> 1\<close>, and any sequence of calls of
  \<open>ExecuteMove\<close> and \<open>ExecuteMoves\<close> lead to has all its tile coordinates within
  \<open>[0, N - 1]\<close>, and each of its pieces has three tiles.
\<close>

theorem cube_invariant:
  assumes "1 \<le> N" and "reachable N c"
  shows "cubeInv N c"
  using assms(2)
  by (induction rule: reachable.induct)
     (simp_all add: cubeInv_NewCube cubeInv_ExecuteMove cubeInv_ExecuteMoves)


theorem cube_invariant_witness:
  "(1::int) \<le> 2
   \<and> reachable 2 (ExecuteMoves (NewCube 2)
        [\<lparr>Slices = 0, Operator = CHR ''R'', Wide = False, Rotations = 1, Inverted = False\<rparr>])
   \<and> cubeInv 2 (ExecuteMoves (NewCube 2)
        [\<lparr>Slices = 0, Operator = CHR ''R'', Wide = False, Rotations = 1, Inverted = False\<rparr>])"
proof -
  have r: "reachable 2 (ExecuteMoves (NewCube 2)
        [\<lparr>Slices = 0, Operator = CHR ''R'', Wide = False, Rotations = 1, Inverted = False\<rparr>])"
    by (rule reach_moves) (rule reach_new)
  have n: "(1::int) \<le> 2" by simp
  from cube_invariant [OF n r] r n show ?thesis by simp
qed

section \<open>Middle-slice moves\<close>







section \<open>The pieces of a new cube\<close>

















section \<open>Parsing and expanding a repeat group\<close>

lemmas parse_eval =
  parseExpand_def ParseNotation_def OpenGroupTypes_def CloseGroupTypes_def
  Separators_def extractToken_def reToken_def isDigit_def isFace_def isEnd_def strToInt_def
  Atoi_def digitVal_def Normalize_def validate_def isAny_def NewGroup_def AddToken_def
  Let_def signed_modulo_int_def NormalizeMoves_def normalizeStep_def CombineMove_def wrap64_def

text \<open>
  C3, as stated, fails: expanding the parse of \<open>(R L2 U')2\<close> does not give
  \<open>[R, U', R, U']\<close>.
\<close>

theorem expand_repeat_group_counterexample:
  "parseExpand ''(R L2 U')2''
     \<noteq> Inr [\<lparr>Slices = 0, Operator = CHR ''R'', Wide = False, Rotations = 1, Inverted = False\<rparr>,
            \<lparr>Slices = 0, Operator = CHR ''U'', Wide = False, Rotations = 1, Inverted = True\<rparr>,
            \<lparr>Slices = 0, Operator = CHR ''R'', Wide = False, Rotations = 1, Inverted = False\<rparr>,
            \<lparr>Slices = 0, Operator = CHR ''U'', Wide = False, Rotations = 1, Inverted = True\<rparr>]"
  by (simp add: parse_eval numeral_2_eq_2)

text \<open>
  C3, amended. \<open>(R L2 U')2\<close> parses to a root group holding one repeat group of factor
  \<open>2\<close> with the moves \<open>R\<close>, \<open>L2\<close>, \<open>U'\<close>, where \<open>L2\<close> is one move of the face
  \<open>L\<close> with two rotations; its expansion is \<open>[R, L2, U', R, L2, U']\<close>, in which no two
  neighbours are of the same face, so normalization changes nothing.
\<close>

theorem expand_repeat_group:
  "ParseNotation ''(R L2 U')2''
     = Inr (MkGroup
         [TokGroup (MkGroup
            [TokMove \<lparr>Slices = 0, Operator = CHR ''R'', Wide = False, Rotations = 1, Inverted = False\<rparr>,
             TokMove \<lparr>Slices = 0, Operator = CHR ''L'', Wide = False, Rotations = 2, Inverted = False\<rparr>,
             TokMove \<lparr>Slices = 0, Operator = CHR ''U'', Wide = False, Rotations = 1, Inverted = True\<rparr>]
            2 GroupTypeMove)]
         1 groupTypeNil)
   \<and> parseExpand ''(R L2 U')2''
     = Inr [\<lparr>Slices = 0, Operator = CHR ''R'', Wide = False, Rotations = 1, Inverted = False\<rparr>,
            \<lparr>Slices = 0, Operator = CHR ''L'', Wide = False, Rotations = 2, Inverted = False\<rparr>,
            \<lparr>Slices = 0, Operator = CHR ''U'', Wide = False, Rotations = 1, Inverted = True\<rparr>,
            \<lparr>Slices = 0, Operator = CHR ''R'', Wide = False, Rotations = 1, Inverted = False\<rparr>,
            \<lparr>Slices = 0, Operator = CHR ''L'', Wide = False, Rotations = 2, Inverted = False\<rparr>,
            \<lparr>Slices = 0, Operator = CHR ''U'', Wide = False, Rotations = 1, Inverted = True\<rparr>]"
  by (simp add: parse_eval numeral_2_eq_2)

section \<open>The token grammar\<close>

text \<open>
  C8, as stated, fails: in \<open>RU\<close> the letter \<open>R\<close> is followed by neither a boundary
  character nor the end of the input, so the text is no token of the grammar as the
  specification words it; \<open>ParseNotation\<close> returns the two moves \<open>R\<close> and \<open>U\<close>, and
  no error.
\<close>

theorem token_without_boundary_counterexample:
  "\<not> specToken ''RU''
   \<and> ParseNotation ''RU''
     = Inr (MkGroup
         [TokMove \<lparr>Slices = 0, Operator = CHR ''R'', Wide = False, Rotations = 1, Inverted = False\<rparr>,
          TokMove \<lparr>Slices = 0, Operator = CHR ''U'', Wide = False, Rotations = 1, Inverted = False\<rparr>]
         1 groupTypeNil)"
  by (simp add: parse_eval specToken_def)

lemma strToInt_optDigit: "optClass isDigit s = (d, r) \<Longrightarrow> \<exists>n. strToInt d = Inr n"
  by (cases s) (auto simp: strToInt_def Atoi_def split: if_splits)

lemma reToken_None: "reToken input = None \<longleftrightarrow> \<not> tokenStart input"
proof (cases input)
  case Nil
  then show ?thesis by (simp add: reToken_def tokenStart_def)
next
  case (Cons a r)
  show ?thesis
  proof (cases "isDigit a")
    case True
    then have "\<not> isFace a" by (auto simp: isDigit_def isFace_def)
    with True Cons show ?thesis
      by (cases r) (auto simp: reToken_def tokenStart_def Let_def split: prod.splits)
  next
    case False
    with Cons show ?thesis
      by (auto simp: reToken_def tokenStart_def Let_def split: prod.splits)
  qed
qed

lemma reToken_digits:
  "reToken input = Some m \<Longrightarrow> (\<exists>n. strToInt (m_slices m) = Inr n) \<and> (\<exists>n. strToInt (m_rotations m) = Inr n)"
  by (auto simp: reToken_def Let_def split: prod.splits list.splits if_splits dest: strToInt_optDigit)

lemma validate_not_TokenExtraction: "validate t \<noteq> Some ErrTokenExtraction"
  by (simp add: validate_def)

lemma extractToken_error: "extractToken input = Inl ErrTokenExtraction \<longleftrightarrow> \<not> tokenStart input"
proof (cases "reToken input")
  case None
  then show ?thesis
    using reToken_None [of input] by (simp add: extractToken_def)
next
  case (Some m)
  from reToken_digits [OF Some] obtain n1 n2 where
    "strToInt (m_slices m) = Inr n1" "strToInt (m_rotations m) = Inr n2" by blast
  with Some have "extractToken input \<noteq> Inl ErrTokenExtraction"
    using validate_not_TokenExtraction
    by (auto simp: extractToken_def Let_def split: option.splits)
  moreover from Some have "tokenStart input"
    using reToken_None [of input] by simp
  ultimately show ?thesis by simp
qed

lemma specToken_tokenStart: "specToken input \<Longrightarrow> tokenStart input"
proof (cases input)
  case Nil
  then show "specToken input \<Longrightarrow> tokenStart input"
    by (simp add: specToken_def)
next
  case (Cons a r)
  assume spec: "specToken input"
  show "tokenStart input"
  proof (cases "isDigit a")
    case False
    with spec Cons show ?thesis
      by (simp add: specToken_def tokenStart_def case_prod_beta)
  next
    case True
    with spec Cons show ?thesis
      by (cases r) (simp_all add: specToken_def tokenStart_def case_prod_beta)
  qed
qed

text \<open>
  C8, amended. \<open>extractToken\<close> returns the \<open>TokenExtraction\<close> error exactly when the
  text does not start with a face letter, or a digit and then a face letter; so
  \<open>ParseNotation\<close> returns it whenever the scan, with any stack and current group,
  reaches a character that is not a space, a group delimiter or a separator and at which
  the text does not start so. What follows the face letter (\<open>w\<close>, a digit, \<open>'\<close>, a
  boundary character) is optional, the boundary character included: every token of the
  specification's grammar is accepted, and a token may be followed by any character.
\<close>

theorem token_extraction_error:
  "(extractToken input = Inl ErrTokenExtraction \<longleftrightarrow> \<not> tokenStart input)
   \<and> (\<not> isStructural ch \<and> \<not> tokenStart (ch # rest) \<longrightarrow>
        parseLoop stack currentGroup (ch # rest) = Inl ErrTokenExtraction)
   \<and> (\<not> isStructural ch \<and> \<not> tokenStart (ch # rest) \<longrightarrow>
        ParseNotation (ch # rest) = Inl ErrTokenExtraction)
   \<and> (specToken input \<longrightarrow> tokenStart input)"
proof -
  have loop: "parseLoop st g (ch # rest) = Inl ErrTokenExtraction"
    if "\<not> isStructural ch" "\<not> tokenStart (ch # rest)" for st g
  proof -
    from that(2) have "extractToken (ch # rest) = Inl ErrTokenExtraction"
      by (simp add: extractToken_error)
    with that(1) show ?thesis
      by (simp add: isStructural_def split: option.splits)
  qed
  show ?thesis
    using loop specToken_tokenStart [of input]
    by (auto simp: extractToken_error ParseNotation_def)
qed

theorem token_extraction_error_witness:
  "\<not> isStructural CHR ''Q'' \<and> \<not> tokenStart ''QR''
   \<and> ParseNotation ''QR'' = Inl ErrTokenExtraction
   \<and> specToken ''R2 '' \<and> tokenStart ''R2 ''"
proof -
  have h: "\<not> isStructural CHR ''Q'' \<and> \<not> tokenStart ''QR''"
    by (simp add: isStructural_def OpenGroupTypes_def CloseGroupTypes_def Separators_def
        tokenStart_def isFace_def isDigit_def)
  have s: "specToken ''R2 ''"
    by (simp add: specToken_def isFace_def isDigit_def isEnd_def)
  from token_extraction_error [of "''R2 ''" "CHR ''Q''" "''R''"] h s
  show ?thesis by blast
qed


section \<open>Expanding a conjugate\<close>

text \<open>The swap loop of \<open>reverse\<close> reverses the list.\<close>

lemma reverseLoop_length: "length (reverseLoop k xs) = length xs"
  by (induction k arbitrary: xs) (simp_all add: Let_def)

lemma reverseLoop_nth:
  assumes "k \<le> length xs div 2" "j < length xs"
  shows "reverseLoop k xs ! j
       = (if j < k \<or> length xs - 1 - j < k then xs ! (length xs - 1 - j) else xs ! j)"
  using assms
proof (induction k arbitrary: xs)
  case 0
  then show ?case by simp
next
  case (Suc k)
  let ?n = "length xs"
  let ?ys = "xs[k := xs ! (?n - 1 - k), ?n - 1 - k := xs ! k]"
  have len: "length ?ys = ?n" by simp
  have k: "k < ?n div 2" using Suc.prems by simp
  then have kn: "k < ?n" "?n - 1 - k < ?n" "k \<noteq> ?n - 1 - k" by auto
  have "reverseLoop (Suc k) xs ! j = reverseLoop k ?ys ! j"
    by (simp add: Let_def)
  also have "\<dots> = (if j < k \<or> ?n - 1 - j < k then ?ys ! (?n - 1 - j) else ?ys ! j)"
    using Suc.IH [of ?ys] k Suc.prems(2) by simp
  also have "\<dots> = (if j < Suc k \<or> ?n - 1 - j < Suc k then xs ! (?n - 1 - j) else xs ! j)"
    using kn Suc.prems(2) k by (auto simp: nth_list_update)
  finally show ?case .
qed

lemma reverse_rev: "reverse xs = rev xs"
proof (rule nth_equalityI)
  show "length (reverse xs) = length (rev xs)"
    by (simp add: reverse_def reverseLoop_length)
next
  fix j assume "j < length (reverse xs)"
  then have j: "j < length xs"
    by (simp add: reverse_def reverseLoop_length)
  have "reverse xs ! j
      = (if j < length xs div 2 \<or> length xs - 1 - j < length xs div 2
         then xs ! (length xs - 1 - j) else xs ! j)"
    unfolding reverse_def by (rule reverseLoop_nth) (simp_all add: j)
  also have "\<dots> = xs ! (length xs - 1 - j)"
  proof (cases "j < length xs div 2 \<or> length xs - 1 - j < length xs div 2")
    case True
    then show ?thesis by simp
  next
    case False
    with j have "length xs - 1 - j = j" by linarith
    with False show ?thesis by simp
  qed
  also have "\<dots> = rev xs ! j"
    using j by (simp add: rev_nth)
  finally show "reverse xs ! j = rev xs ! j" .
qed

lemma ReverseMoves_rev:
  "ReverseMoves ms = map (\<lambda>m. m\<lparr>Inverted := \<not> Inverted m\<rparr>) (rev ms)"
  by (simp add: ReverseMoves_def reverse_rev)

lemma expandTokens_append:
  "expandTokens (xs @ ys) st
     = (case expandTokens xs st of Inl err \<Rightarrow> Inl err | Inr st' \<Rightarrow> expandTokens ys st')"
proof (induction xs arbitrary: st)
  case Nil
  then show ?case by simp
next
  case (Cons x xs)
  obtain h t s where st: "st = (h, t, s)" by (cases st) auto
  show ?case
  proof (cases x)
    case (TokMove v)
    then show ?thesis unfolding st by (simp add: Cons.IH)
  next
    case (TokSeparator v)
    then show ?thesis unfolding st by (simp add: Cons.IH)
  next
    case (TokGroup g)
    show ?thesis
      unfolding st TokGroup by (cases "Expand g") (simp_all add: Cons.IH)
  qed
qed

lemma expandTokens_separator_kept:
  "expandTokens ts (h, t, Some s) = Inr (h', t', s') \<Longrightarrow> s' = Some s"
proof (induction ts arbitrary: t)
  case Nil
  then show ?case by simp
next
  case (Cons x ts)
  then show ?case
    by (cases x) (auto split: sum.splits)
qed

lemma expandTokens_shift:
  assumes "expandTokens ts (h0, t0, None) = Inr (h', t', None)"
  shows "\<exists>a. h' = h0 @ a \<and> t' = t0
           \<and> (\<forall>h t. expandTokens ts (h, t, None) = Inr (h @ a, t, None))
           \<and> (\<forall>h t s. expandTokens ts (h, t, Some s) = Inr (h, t @ a, Some s))"
  using assms
proof (induction ts arbitrary: h0)
  case Nil
  then show ?case by simp
next
  case (Cons x ts)
  show ?case
  proof (cases x)
    case (TokMove v)
    with Cons.prems have "expandTokens ts (h0 @ [v], t0, None) = Inr (h', t', None)" by simp
    from Cons.IH [OF this] obtain a where
      a: "h' = (h0 @ [v]) @ a" "t' = t0"
         "\<forall>h t. expandTokens ts (h, t, None) = Inr (h @ a, t, None)"
         "\<forall>h t s. expandTokens ts (h, t, Some s) = Inr (h, t @ a, Some s)" by blast
    show ?thesis
      by (rule exI [of _ "v # a"]) (simp add: TokMove a)
  next
    case (TokSeparator v)
    with Cons.prems have "expandTokens ts (h0, t0, Some v) = Inr (h', t', None)" by simp
    from expandTokens_separator_kept [OF this] show ?thesis by simp
  next
    case (TokGroup g)
    with Cons.prems obtain toks where
      g: "Expand g = Inr toks" and "expandTokens ts (h0 @ toks, t0, None) = Inr (h', t', None)"
      by (auto split: sum.splits)
    from Cons.IH [OF this(2)] obtain a where
      a: "h' = (h0 @ toks) @ a" "t' = t0"
         "\<forall>h t. expandTokens ts (h, t, None) = Inr (h @ a, t, None)"
         "\<forall>h t s. expandTokens ts (h, t, Some s) = Inr (h, t @ a, Some s)" by blast
    show ?thesis
      by (rule exI [of _ "toks @ a"]) (simp add: TokGroup g a)
  qed
qed

lemma expandTokens_flat:
  assumes "expandTokens ts ([], [], None) = Inr (a, [], None)"
  shows "expandTokens ts (h, t, None) = Inr (h @ a, t, None)"
    and "expandTokens ts (h, t, Some s) = Inr (h, t @ a, Some s)"
  using expandTokens_shift [OF assms] by auto

lemma expandTokens_conjugate:
  assumes "expandTokens A ([], [], None) = Inr (a, [], None)"
    and "expandTokens B ([], [], None) = Inr (b, [], None)"
  shows "expandTokens (A @ TokSeparator sep # B) ([], [], None) = Inr (a, b, Some sep)"
  using assms
  by (simp add: expandTokens_append expandTokens_flat(2) [OF assms(2)])


text \<open>
  C6, as stated, fails: with \<open>A = R\<close> and \<open>B = R\<close> both sub-sequences expand to
  \<open>[R]\<close>, and \<open>[R : R]\<close> expands to \<open>[R]\<close>, not to \<open>[R, R, R']\<close>, since \<open>Expand\<close>
  normalizes the sequence it has assembled.
\<close>

theorem conjugate_law_counterexample:
  "Expand (MkGroup
      [TokMove \<lparr>Slices = 0, Operator = CHR ''R'', Wide = False, Rotations = 1, Inverted = False\<rparr>]
      1 groupTypeNil)
     = Inr [\<lparr>Slices = 0, Operator = CHR ''R'', Wide = False, Rotations = 1, Inverted = False\<rparr>]
   \<and> Expand (MkGroup
      [TokMove \<lparr>Slices = 0, Operator = CHR ''R'', Wide = False, Rotations = 1, Inverted = False\<rparr>,
       TokSeparator SepConjugate,
       TokMove \<lparr>Slices = 0, Operator = CHR ''R'', Wide = False, Rotations = 1, Inverted = False\<rparr>]
      1 GroupTypeComm)
     = Inr [\<lparr>Slices = 0, Operator = CHR ''R'', Wide = False, Rotations = 1, Inverted = False\<rparr>]
   \<and> Expand (MkGroup
      [TokMove \<lparr>Slices = 0, Operator = CHR ''R'', Wide = False, Rotations = 1, Inverted = False\<rparr>,
       TokSeparator SepConjugate,
       TokMove \<lparr>Slices = 0, Operator = CHR ''R'', Wide = False, Rotations = 1, Inverted = False\<rparr>]
      1 GroupTypeComm)
     \<noteq> Inr ([\<lparr>Slices = 0, Operator = CHR ''R'', Wide = False, Rotations = 1, Inverted = False\<rparr>]
            @ [\<lparr>Slices = 0, Operator = CHR ''R'', Wide = False, Rotations = 1, Inverted = False\<rparr>]
            @ ReverseMoves
                [\<lparr>Slices = 0, Operator = CHR ''R'', Wide = False, Rotations = 1, Inverted = False\<rparr>])"
  by (simp add: NormalizeMoves_def normalizeStep_def CombineMove_def Normalize_def wrap64_def
      signed_modulo_int_def ReverseMoves_rev Let_def)

text \<open>
  C6, amended. Let \<open>A\<close> and \<open>B\<close> be token sequences without a separator of their own
  whose elements expand without error, and let \<open>a\<close> and \<open>b\<close> be the concatenations of
  the moves and of the expansions of the nested groups of \<open>A\<close> and of \<open>B\<close>, so that
  \<open>A\<close> alone expands to the normalization of \<open>a\<close>. Then the conjugate group \<open>[A : B]\<close>
  expands to the normalization of \<open>a @ b @ reverse_inverted a\<close> (repeated \<open>factor\<close>
  times when the factor is above \<open>1\<close>), where \<open>reverse_inverted\<close> reverses the sequence
  and flips the inverted flag of each move.
\<close>

theorem conjugate_expansion:
  assumes A: "expandTokens A ([], [], None) = Inr (a, [], None)"
    and B: "expandTokens B ([], [], None) = Inr (b, [], None)"
  shows "Expand (MkGroup (A @ TokSeparator SepConjugate # B) factor GroupTypeComm)
           = NormalizeMoves
               (concat (replicate (if factor > 1 then nat factor else 1)
                  (a @ b @ ReverseMoves a)))
       \<and> ReverseMoves a = map (\<lambda>m. m\<lparr>Inverted := \<not> Inverted m\<rparr>) (rev a)
       \<and> Expand (MkGroup A 1 groupTypeNil) = NormalizeMoves a
       \<and> Expand (MkGroup B 1 groupTypeNil) = NormalizeMoves b"
proof (intro conjI)
  have "expandTokens (A @ TokSeparator SepConjugate # B) ([], [], None)
      = Inr (a, b, Some SepConjugate)"
    using A B by (rule expandTokens_conjugate)
  then show "Expand (MkGroup (A @ TokSeparator SepConjugate # B) factor GroupTypeComm)
           = NormalizeMoves
               (concat (replicate (if factor > 1 then nat factor else 1)
                  (a @ b @ ReverseMoves a)))"
    by simp
  show "ReverseMoves a = map (\<lambda>m. m\<lparr>Inverted := \<not> Inverted m\<rparr>) (rev a)"
    by (rule ReverseMoves_rev)
  show "Expand (MkGroup A 1 groupTypeNil) = NormalizeMoves a"
    using A by simp
  show "Expand (MkGroup B 1 groupTypeNil) = NormalizeMoves b"
    using B by simp
qed

theorem conjugate_expansion_witness:
  "expandTokens
      [TokMove \<lparr>Slices = 0, Operator = CHR ''R'', Wide = False, Rotations = 1, Inverted = False\<rparr>]
      ([], [], None)
     = Inr ([\<lparr>Slices = 0, Operator = CHR ''R'', Wide = False, Rotations = 1, Inverted = False\<rparr>],
            [], None)
   \<and> expandTokens
      [TokMove \<lparr>Slices = 0, Operator = CHR ''U'', Wide = False, Rotations = 1, Inverted = False\<rparr>]
      ([], [], None)
     = Inr ([\<lparr>Slices = 0, Operator = CHR ''U'', Wide = False, Rotations = 1, Inverted = False\<rparr>],
            [], None)
   \<and> Expand (MkGroup
        ([TokMove \<lparr>Slices = 0, Operator = CHR ''R'', Wide = False, Rotations = 1, Inverted = False\<rparr>]
         @ TokSeparator SepConjugate
         # [TokMove \<lparr>Slices = 0, Operator = CHR ''U'', Wide = False, Rotations = 1, Inverted = False\<rparr>])
        1 GroupTypeComm)
     = Inr [\<lparr>Slices = 0, Operator = CHR ''R'', Wide = False, Rotations = 1, Inverted = False\<rparr>,
            \<lparr>Slices = 0, Operator = CHR ''U'', Wide = False, Rotations = 1, Inverted = False\<rparr>,
            \<lparr>Slices = 0, Operator = CHR ''R'', Wide = False, Rotations = 1, Inverted = True\<rparr>]"
proof -
  let ?R = "\<lparr>Slices = 0, Operator = CHR ''R'', Wide = False, Rotations = 1, Inverted = False\<rparr>"
  let ?U = "\<lparr>Slices = 0, Operator = CHR ''U'', Wide = False, Rotations = 1, Inverted = False\<rparr>"
  have a: "expandTokens [TokMove ?R] ([], [], None) = Inr ([?R], [], None)" by simp
  have b: "expandTokens [TokMove ?U] ([], [], None) = Inr ([?U], [], None)" by simp
  have n: "NormalizeMoves (concat (replicate (if (1::int) > 1 then nat 1 else 1)
              ([?R] @ [?U] @ ReverseMoves [?R])))
         = Inr [?R, ?U, ?R\<lparr>Inverted := True\<rparr>]"
    by (simp add: NormalizeMoves_def normalizeStep_def CombineMove_def ReverseMoves_rev)
  from conjugate_expansion [OF a b, of 1] have
    "Expand (MkGroup ([TokMove ?R] @ TokSeparator SepConjugate # [TokMove ?U]) 1 GroupTypeComm)
       = NormalizeMoves (concat (replicate (if (1::int) > 1 then nat 1 else 1)
              ([?R] @ [?U] @ ReverseMoves [?R])))"
    by blast
  with n a b show ?thesis by simp
qed


end
